theory Spec2Isabelle
  imports Main "HOL-Library.Sublist"
begin

section \<open>Dodgem: the bump pipeline of src/app.js\<close>

text \<open>
  The program drives a browser page through a chain of promises:
  \<^verbatim>\<open>boot(args, opts).then(login).then(scrapeTrades).then(bumpTrades).then(scheduleBumpTrades)\<close>
  and \<^verbatim>\<open>scheduleBumpTrades\<close> registers a timer whose callback runs
  \<^verbatim>\<open>scrapeTrades([page, args, opts]).then(bumpTrades).then(scheduleBumpTrades)\<close>.
  Every \<^verbatim>\<open>async\<close> function is modelled as a function from the world to a result that
  either returns a value or throws (a rejected promise), with the world it leaves behind.
\<close>

subsection \<open>Values and arguments\<close>

text \<open>A JavaScript value as far as the program handles one: a string or \<^verbatim>\<open>undefined\<close>.\<close>

datatype jsval = Undefined | Str string

text \<open>
  The argument \<^verbatim>\<open><target>\<close> is validated against the list \<^verbatim>\<open>['all', 'oldest']\<close> (line 239),
  the argument \<^verbatim>\<open><interval>\<close> is a number of minutes (line 240). Its validator
  \<^verbatim>\<open>regex.interval\<close> is in a file that is not part of the sources at hand; the interval is
  taken as a natural number.
\<close>

datatype target = AllTrades | OldestTrade

record args =
  target :: target
  interval :: nat

subsection \<open>The collaborators: page, terminal, clock\<close>

text \<open>
  The selectors the program passes to the page:
  \<^item> \<open>EmailInput\<close> is \<^verbatim>\<open>.rlg-form .rlg-input[type="email"]\<close>,
  \<^item> \<open>PasswordInput\<close> is \<^verbatim>\<open>.rlg-form .rlg-input[type="password"]\<close>,
  \<^item> \<open>LoginSubmit\<close> is \<^verbatim>\<open>.rlg-form .rlg-btn-primary[type="submit"]\<close>,
  \<^item> \<open>WelcomeUser\<close> is \<^verbatim>\<open>.rlg-header-main-welcome-user\<close>,
  \<^item> \<open>TradesLink\<close> is \<^verbatim>\<open>[href^='/trades']\<close>,
  \<^item> \<open>EditLink\<close> is \<^verbatim>\<open>[href^='/trade/edit']\<close>,
  \<^item> \<open>SaveButton\<close> is \<^verbatim>\<open>.rlg-btn-primary[type="submit"]\<close>.
\<close>

datatype selector =
  EmailInput | PasswordInput | LoginSubmit | WelcomeUser | TradesLink | EditLink | SaveButton

datatype call =
    Launch
  | NewPage
  | Goto jsval
  | Focus selector
  | Type jsval
  | Hover selector
  | Click selector
  | WaitForNavigation
  | Evaluate

text \<open>The texts handed to the spinner, with the values interpolated into them.\<close>

datatype message =
    BumpingEvery target nat
  | LoggingIn jsval
  | LoggedIn jsval
  | FindingTrades
  | FoundTrades nat
  | BumpingOldest
  | BumpingTrade nat nat
  | BumpedOldest nat
  | BumpedTrade nat nat nat
  | FailedOldest nat
  | FailedTrade nat nat nat
  | RunAgainAt nat

datatype event =
    Call call
  | Delay nat
  | SpinStart message
  | SpinSucceed message
  | SpinFail message
  | Info message
  | Fired nat

text \<open>
  The world: the clock in milliseconds (what \<^verbatim>\<open>moment()\<close> reads), the state of the browser
  page, everything done so far in order, and the timer registered by
  \<^verbatim>\<open>scheduleBumpTrades\<close>, if one is pending.
\<close>

record 'p world =
  now :: nat
  page :: 'p
  trace :: "event list"
  timer :: "nat option"

text \<open>
  What the program does not decide: how the page answers a call (the error it throws, if
  any, the milliseconds the call takes, the page afterwards), the anchors the page shows,
  how late a timer fires, and the stored preferences.
\<close>

record 'p env =
  respond :: "'p \<Rightarrow> nat \<Rightarrow> call \<Rightarrow> string option \<times> nat \<times> 'p"
  anchors :: "'p \<Rightarrow> string list"
  lag :: "nat \<Rightarrow> nat \<Rightarrow> nat"
  emailAddress :: jsval
  password :: jsval

datatype ('a, 'p) result = Return 'a "'p world" | Throw string "'p world"

fun world_of :: "('a, 'p) result \<Rightarrow> 'p world" where
  "world_of (Return x w) = w"
| "world_of (Throw e w) = w"

fun raised :: "('a, 'p) result \<Rightarrow> bool" where
  "raised (Return x w) = False"
| "raised (Throw e w) = True"

text \<open>\<^verbatim>\<open>const x = await r; k(x)\<close>, and \<^verbatim>\<open>r.then(k)\<close>: a rejection skips the continuation.\<close>

fun await :: "('a, 'p) result \<Rightarrow> ('a \<Rightarrow> 'p world \<Rightarrow> ('b, 'p) result) \<Rightarrow> ('b, 'p) result" where
  "await (Return x w) k = k x w"
| "await (Throw e w) k = Throw e w"

definition emit :: "event \<Rightarrow> 'p world \<Rightarrow> 'p world" where
  "emit e w = w\<lparr>trace := trace w @ [e]\<rparr>"

definition pageCall :: "'p env \<Rightarrow> call \<Rightarrow> 'p world \<Rightarrow> (unit, 'p) result" where
  "pageCall env c w =
     (case respond env (page w) (now w) c of
        (err, ms, p') \<Rightarrow>
          (let w' = emit (Call c) (w\<lparr>now := now w + ms, page := p'\<rparr>)
           in case err of None \<Rightarrow> Return () w' | Some e \<Rightarrow> Throw e w'))"

text \<open>
  \<^verbatim>\<open>
  async function delay (timeout) {
    return new Promise(resolve => { setTimeout(() => { resolve() }, timeout) })
  }
  \<close>
  A timer fires no earlier than its timeout.
\<close>

definition delay :: "'p env \<Rightarrow> nat \<Rightarrow> 'p world \<Rightarrow> (unit, 'p) result" where
  "delay env timeout w =
     Return () (emit (Delay timeout) (w\<lparr>now := now w + timeout + lag env (now w) timeout\<rparr>))"

definition login_url :: string where
  "login_url = ''https://rocket-league.com/login''"

definition trading_url :: string where
  "trading_url = ''https://rocket-league.com/trading''"

subsection \<open>boot and login\<close>

definition boot :: "'p env \<Rightarrow> args \<Rightarrow> 'p world \<Rightarrow> (unit, 'p) result" where
  "boot env args w =
     await (pageCall env Launch w) (\<lambda>_ w.
     await (pageCall env NewPage w) (\<lambda>_ w.
     Return () (emit (Info (BumpingEvery (target args) (interval args))) w)))"

definition login :: "'p env \<Rightarrow> args \<Rightarrow> 'p world \<Rightarrow> (unit, 'p) result" where
  "login env args w =
     (let w = emit (SpinStart (LoggingIn (emailAddress env))) w in
      await (pageCall env (Goto (Str login_url)) w) (\<lambda>_ w.
      await (pageCall env (Focus EmailInput) w) (\<lambda>_ w.
      await (pageCall env (Type (emailAddress env)) w) (\<lambda>_ w.
      await (pageCall env (Focus PasswordInput) w) (\<lambda>_ w.
      await (pageCall env (Type (password env)) w) (\<lambda>_ w.
      await (pageCall env (Click LoginSubmit) w) (\<lambda>_ w.
      await (pageCall env WaitForNavigation w) (\<lambda>_ w.
      Return () (emit (SpinSucceed (LoggedIn (emailAddress env))) w)))))))))"

subsection \<open>scrapeTrades\<close>

text \<open>\<^verbatim>\<open>xs[i]\<close> on a JavaScript array: \<^verbatim>\<open>undefined\<close> outside the array.\<close>

definition js_index :: "jsval list \<Rightarrow> int \<Rightarrow> jsval" where
  "js_index xs i = (if 0 \<le> i \<and> i < int (length xs) then xs ! nat i else Undefined)"

text \<open>
  \<^verbatim>\<open>if (args.target === 'oldest') tradeUrls = [tradeUrls[tradeUrls.length - 1]]\<close>
\<close>

definition selectTrades :: "args \<Rightarrow> jsval list \<Rightarrow> jsval list" where
  "selectTrades args tradeUrls =
     (if target args = OldestTrade then [js_index tradeUrls (int (length tradeUrls) - 1)]
      else tradeUrls)"

definition scrapeTrades :: "'p env \<Rightarrow> args \<Rightarrow> 'p world \<Rightarrow> (jsval list, 'p) result" where
  "scrapeTrades env args w =
     (let w = emit (SpinStart FindingTrades) w in
      await (pageCall env (Goto (Str trading_url)) w) (\<lambda>_ w.
      await (pageCall env (Hover WelcomeUser) w) (\<lambda>_ w.
      await (pageCall env (Click TradesLink) w) (\<lambda>_ w.
      await (pageCall env WaitForNavigation w) (\<lambda>_ w.
      await (pageCall env Evaluate w) (\<lambda>_ w.
        (let tradeUrls = map Str (anchors env (page w));
             w = emit (SpinSucceed (FoundTrades (length tradeUrls))) w
         in Return (selectTrades args tradeUrls) w)))))))"

subsection \<open>bumpTrades\<close>

text \<open>The body of the \<^verbatim>\<open>try\<close> block, lines 124 to 138.\<close>

definition attempt :: "'p env \<Rightarrow> args \<Rightarrow> jsval \<Rightarrow> 'p world \<Rightarrow> (unit, 'p) result" where
  "attempt env args tradeUrl w =
     await (pageCall env (Goto tradeUrl) w) (\<lambda>_ w.
     await (pageCall env (Click EditLink) w) (\<lambda>_ w.
     await (pageCall env WaitForNavigation w) (\<lambda>_ w.
     await (if target args = AllTrades then delay env (1000 * 10) w else Return () w) (\<lambda>_ w.
     await (pageCall env (Click SaveButton) w) (\<lambda>_ w.
     pageCall env WaitForNavigation w)))))"

text \<open>
  One turn of the \<^verbatim>\<open>for\<close> loop, lines 115 to 153: \<open>n\<close> is \<^verbatim>\<open>tradeUrls.length\<close>.
  \<^verbatim>\<open>moment().diff(start, 'seconds')\<close> truncates to whole seconds. The \<^verbatim>\<open>catch\<close> block
  does not use the error it caught.
\<close>

definition bumpTrade ::
  "'p env \<Rightarrow> args \<Rightarrow> nat \<Rightarrow> nat \<Rightarrow> jsval \<Rightarrow> 'p world \<Rightarrow> (unit, 'p) result" where
  "bumpTrade env args n index tradeUrl w =
     (let humanIndex = index + 1;
          start = now w;
          w = emit (SpinStart (if target args = OldestTrade then BumpingOldest
                               else BumpingTrade humanIndex n)) w
      in case attempt env args tradeUrl w of
           Return _ w \<Rightarrow>
             (let secondsElapsed = (now w - start) div 1000
              in Return () (emit (SpinSucceed (if target args = OldestTrade
                                               then BumpedOldest secondsElapsed
                                               else BumpedTrade humanIndex n secondsElapsed)) w))
         | Throw error w \<Rightarrow>
             (let secondsElapsed = (now w - start) div 1000
              in Return () (emit (SpinFail (if target args = OldestTrade
                                            then FailedOldest secondsElapsed
                                            else FailedTrade humanIndex n secondsElapsed)) w)))"

fun bumpLoop ::
  "'p env \<Rightarrow> args \<Rightarrow> nat \<Rightarrow> nat \<Rightarrow> jsval list \<Rightarrow> 'p world \<Rightarrow> (unit, 'p) result" where
  "bumpLoop env args n index [] w = Return () w"
| "bumpLoop env args n index (tradeUrl # rest) w =
     await (bumpTrade env args n index tradeUrl w) (\<lambda>_ w.
     bumpLoop env args n (index + 1) rest w)"

definition bumpTrades :: "'p env \<Rightarrow> args \<Rightarrow> jsval list \<Rightarrow> 'p world \<Rightarrow> (unit, 'p) result" where
  "bumpTrades env args tradeUrls w = bumpLoop env args (length tradeUrls) 0 tradeUrls w"

subsection \<open>scheduleBumpTrades and the timer\<close>

text \<open>
  \<^verbatim>\<open>
  const minutes = args.interval
  const nextRunTs = moment().add(minutes, 'minutes').format('HH:mm:ss')
  new Ora(`Dodgem will run again at: ${chalk.green(nextRunTs)}`).info()
  setTimeout(() => { ... }, 1000 * 60 * minutes)
  \<close>
  The message carries the instant itself, in milliseconds, rather than its rendering as a
  time of day.
\<close>

definition scheduleBumpTrades :: "args \<Rightarrow> 'p world \<Rightarrow> (unit, 'p) result" where
  "scheduleBumpTrades args w =
     (let minutes = interval args;
          nextRunTs = now w + 1000 * 60 * minutes;
          w = emit (Info (RunAgainAt nextRunTs)) w
      in Return () (w\<lparr>timer := Some (1000 * 60 * minutes)\<rparr>))"

text \<open>The callback of the timer: line 173 to 175.\<close>

definition cycle :: "'p env \<Rightarrow> args \<Rightarrow> 'p world \<Rightarrow> (unit, 'p) result" where
  "cycle env args w =
     await (scrapeTrades env args w) (\<lambda>tradeUrls w.
     await (bumpTrades env args tradeUrls w) (\<lambda>_ w.
     scheduleBumpTrades args w))"

text \<open>The action of the \<^verbatim>\<open>bump\<close> command: line 242 to 246.\<close>

definition action :: "'p env \<Rightarrow> args \<Rightarrow> 'p world \<Rightarrow> (unit, 'p) result" where
  "action env args w =
     await (boot env args w) (\<lambda>_ w.
     await (login env args w) (\<lambda>_ w.
     await (scrapeTrades env args w) (\<lambda>tradeUrls w.
     await (bumpTrades env args tradeUrls w) (\<lambda>_ w.
     scheduleBumpTrades args w))))"

text \<open>
  The event loop: the pending timer, if there is one, fires once its timeout has passed and
  runs its callback. With no timer pending there is nothing left to run.
\<close>

definition fire :: "'p env \<Rightarrow> args \<Rightarrow> 'p world \<Rightarrow> (unit, 'p) result" where
  "fire env args w =
     (case timer w of
        None \<Rightarrow> Return () w
      | Some ms \<Rightarrow>
          cycle env args
            (emit (Fired ms) (w\<lparr>timer := None, now := now w + ms + lag env (now w) ms\<rparr>)))"

text \<open>
  The command followed by \<open>k\<close> turns of the event loop. A rejected chain has no handler:
  nothing runs after it.
\<close>

fun run :: "'p env \<Rightarrow> args \<Rightarrow> nat \<Rightarrow> 'p world \<Rightarrow> (unit, 'p) result" where
  "run env args 0 w = action env args w"
| "run env args (Suc k) w = await (run env args k w) (\<lambda>_ w. fire env args w)"

section \<open>Observing a run\<close>

fun returned :: "('a, 'p) result \<Rightarrow> 'a option" where
  "returned (Return x w) = Some x"
| "returned (Throw e w) = None"

text \<open>The milliseconds an event suspends the program for.\<close>

fun wait_ms :: "event \<Rightarrow> nat" where
  "wait_ms (Delay ms) = ms"
| "wait_ms (Fired ms) = ms"
| "wait_ms _ = 0"

definition waited :: "event list \<Rightarrow> nat" where
  "waited es = sum_list (map wait_ms es)"

text \<open>
  \<open>advances P w w'\<close>: the world \<open>w'\<close> continues \<open>w\<close> by events that all satisfy \<open>P\<close>, and its
  clock is later by at least the time waited.
\<close>

definition advances :: "(event \<Rightarrow> bool) \<Rightarrow> 'p world \<Rightarrow> 'p world \<Rightarrow> bool" where
  "advances P w w' \<longleftrightarrow>
     (\<exists>es. trace w' = trace w @ es \<and> list_all P es \<and> now w + waited es \<le> now w')"

text \<open>Two worlds with the same clock and the same page are the same to the page.\<close>

definition agree :: "('a, 'p) result \<Rightarrow> ('a, 'p) result \<Rightarrow> bool" where
  "agree r1 r2 \<longleftrightarrow>
     raised r1 = raised r2 \<and> returned r1 = returned r2
     \<and> now (world_of r1) = now (world_of r2) \<and> page (world_of r1) = page (world_of r2)"





fun is_outcome :: "event \<Rightarrow> bool" where
  "is_outcome (SpinSucceed (BumpedOldest s)) = True"
| "is_outcome (SpinSucceed (BumpedTrade i n s)) = True"
| "is_outcome (SpinFail (FailedOldest s)) = True"
| "is_outcome (SpinFail (FailedTrade i n s)) = True"
| "is_outcome _ = False"

fun is_failed :: "event \<Rightarrow> bool" where
  "is_failed (SpinFail m) = True"
| "is_failed _ = False"

text \<open>What the body of the \<^verbatim>\<open>try\<close> block can do.\<close>

fun attempt_event :: "event \<Rightarrow> bool" where
  "attempt_event (Call (Goto u)) = True"
| "attempt_event (Call (Click s)) = (s = EditLink \<or> s = SaveButton)"
| "attempt_event (Call WaitForNavigation) = True"
| "attempt_event (Delay ms) = (ms = 1000 * 10)"
| "attempt_event _ = False"


text \<open>
  The part of the trace that belongs to item \<open>index\<close> of \<open>n\<close>: the spinner starts, the
  item is navigated to, further steps of the \<^verbatim>\<open>try\<close> block follow, and one outcome for this
  item ends it.
\<close>

fun outcome_for :: "args \<Rightarrow> nat \<Rightarrow> nat \<Rightarrow> event \<Rightarrow> bool" where
  "outcome_for args n index (SpinSucceed (BumpedOldest s)) = (target args = OldestTrade)"
| "outcome_for args n index (SpinSucceed (BumpedTrade i m s)) =
     (target args \<noteq> OldestTrade \<and> i = index + 1 \<and> m = n)"
| "outcome_for args n index (SpinFail (FailedOldest s)) = (target args = OldestTrade)"
| "outcome_for args n index (SpinFail (FailedTrade i m s)) =
     (target args \<noteq> OldestTrade \<and> i = index + 1 \<and> m = n)"
| "outcome_for args n index e = False"

definition item_segment :: "args \<Rightarrow> nat \<Rightarrow> nat \<Rightarrow> jsval \<Rightarrow> event list \<Rightarrow> bool" where
  "item_segment args n index tradeUrl seg \<longleftrightarrow>
     3 \<le> length seg
     \<and> hd seg = SpinStart (if target args = OldestTrade then BumpingOldest
                            else BumpingTrade (index + 1) n)
     \<and> seg ! 1 = Call (Goto tradeUrl)
     \<and> list_all attempt_event (butlast (drop 2 seg))
     \<and> outcome_for args n index (last seg)"









text \<open>The discovery of the first cycle: \<^verbatim>\<open>boot(args, opts).then(login).then(scrapeTrades)\<close>.\<close>

definition firstDiscovery :: "'p env \<Rightarrow> args \<Rightarrow> 'p world \<Rightarrow> (jsval list, 'p) result" where
  "firstDiscovery env args w =
     await (boot env args w) (\<lambda>_ w.
     await (login env args w) (\<lambda>_ w.
     scrapeTrades env args w))"

subsection \<open>Fixtures\<close>

text \<open>A page that answers every call at once and without error, showing the given anchors.\<close>

definition calmEnv :: "string list \<Rightarrow> unit env" where
  "calmEnv hrefs =
     \<lparr>respond = (\<lambda>p t c. (None, 0, p)), anchors = (\<lambda>p. hrefs), lag = (\<lambda>t ms. 0),
      emailAddress = Str ''trader@example.com'', password = Str ''hunter2''\<rparr>"

text \<open>The same page, except that the call \<open>c\<close> throws \<open>e\<close>.\<close>

definition failingEnv :: "call \<Rightarrow> string \<Rightarrow> string list \<Rightarrow> unit env" where
  "failingEnv c e hrefs =
     \<lparr>respond = (\<lambda>p t c'. (if c' = c then Some e else None, 0, p)), anchors = (\<lambda>p. hrefs),
      lag = (\<lambda>t ms. 0), emailAddress = Str ''trader@example.com'', password = Str ''hunter2''\<rparr>"


text \<open>
  A page that counts the evaluations it has served and throws on the second one: the
  listing of the second cycle cannot be read.
\<close>

definition secondListingFailsEnv :: "nat env" where
  "secondListingFailsEnv =
     \<lparr>respond = (\<lambda>p t c. if c = Evaluate
                              then (if p = 1 then Some ''timeout'' else None, 0, p + 1)
                              else (None, 0, p)),
      anchors = (\<lambda>p. [''t1'']), lag = (\<lambda>t ms. 0),
      emailAddress = Str ''trader@example.com'', password = Str ''hunter2''\<rparr>"

definition counting0 :: "nat world" where
  "counting0 = \<lparr>now = 0, page = 0, trace = [], timer = None\<rparr>"

definition world0 :: "unit world" where
  "world0 = \<lparr>now = 0, page = (), trace = [], timer = None\<rparr>"

definition bumpAll15 :: args where
  "bumpAll15 = \<lparr>target = AllTrades, interval = 15\<rparr>"

definition bumpOldest15 :: args where
  "bumpOldest15 = \<lparr>target = OldestTrade, interval = 15\<rparr>"


section \<open>How the stages continue the world\<close>

lemma advances_refl: "advances P w w"
  by (simp add: advances_def waited_def)

lemma advances_trans:
  assumes "advances P w w1" and "advances P w1 w2"
  shows "advances P w w2"
proof -
  from assms(1) obtain es where es: "trace w1 = trace w @ es" "list_all P es"
    "now w + waited es \<le> now w1" by (auto simp: advances_def)
  from assms(2) obtain fs where fs: "trace w2 = trace w1 @ fs" "list_all P fs"
    "now w1 + waited fs \<le> now w2" by (auto simp: advances_def)
  have "trace w2 = trace w @ (es @ fs)" using es fs by simp
  moreover have "list_all P (es @ fs)" using es fs by simp
  moreover have "now w + waited (es @ fs) \<le> now w2" using es fs by (simp add: waited_def)
  ultimately show ?thesis unfolding advances_def by blast
qed



lemma advances_pageCall:
  assumes "P (Call c)"
  shows "advances P w (world_of (pageCall env c w))"
  using assms
  by (simp add: advances_def pageCall_def emit_def waited_def Let_def
      split: prod.splits option.splits)

lemma advances_delay:
  assumes "P (Delay ms)"
  shows "advances P w (world_of (delay env ms w))"
  using assms by (simp add: advances_def delay_def emit_def waited_def)

lemma advances_await:
  assumes "advances P w (world_of r)"
    and "\<And>x w1. r = Return x w1 \<Longrightarrow> advances P w1 (world_of (k x w1))"
  shows "advances P w (world_of (await r k))"
proof (cases r)
  case (Return x w1)
  with assms show ?thesis by (auto intro: advances_trans)
next
  case (Throw e w1)
  with assms show ?thesis by simp
qed



lemma timer_emit [simp]: "timer (emit e w) = timer w"
  by (simp add: emit_def)

lemma timer_pageCall [simp]: "timer (world_of (pageCall env c w)) = timer w"
  by (simp add: pageCall_def emit_def Let_def split: prod.splits option.splits)

lemma timer_delay [simp]: "timer (world_of (delay env ms w)) = timer w"
  by (simp add: delay_def emit_def)

lemma timer_await:
  assumes "timer (world_of r) = timer w"
    and "\<And>x w1. r = Return x w1 \<Longrightarrow> timer (world_of (k x w1)) = timer w1"
  shows "timer (world_of (await r k)) = timer w"
  using assms by (cases r) auto


lemma timer_boot: "timer (world_of (boot env args w)) = timer w"
  unfolding boot_def by (intro timer_await) simp_all


lemma timer_login: "timer (world_of (login env args w)) = timer w"
  unfolding login_def Let_def
  by ((intro timer_await | simp)+)


lemma timer_scrapeTrades: "timer (world_of (scrapeTrades env args w)) = timer w"
  unfolding scrapeTrades_def Let_def
  by ((intro timer_await | simp)+)


lemma timer_attempt: "timer (world_of (attempt env args tradeUrl w)) = timer w"
  unfolding attempt_def
  by ((intro timer_await | simp)+)




lemma agree_pageCall:
  assumes "now w1 = now w2" and "page w1 = page w2"
  shows "agree (pageCall env c w1) (pageCall env c w2)"
  using assms
  by (simp add: agree_def pageCall_def emit_def Let_def split: prod.splits option.splits)

lemma agree_delay:
  assumes "now w1 = now w2" and "page w1 = page w2"
  shows "agree (delay env ms w1) (delay env ms w2)"
  using assms by (simp add: agree_def delay_def emit_def)

lemma agree_Return:
  assumes "now w1 = now w2" and "page w1 = page w2"
  shows "agree (Return x w1) (Return x w2)"
  using assms by (simp add: agree_def)

lemma agree_await:
  assumes "agree r1 r2"
    and "\<And>x w1 w2. now w1 = now w2 \<Longrightarrow> page w1 = page w2 \<Longrightarrow> agree (k1 x w1) (k2 x w2)"
  shows "agree (await r1 k1) (await r2 k2)"
proof (cases r1)
  case r1: (Return x w1)
  with assms(1) obtain w2 where r2: "r2 = Return x w2"
    by (cases r2) (auto simp: agree_def)
  from assms(1) r1 r2 have "now w1 = now w2" "page w1 = page w2"
    by (auto simp: agree_def)
  then have "agree (k1 x w1) (k2 x w2)" by (rule assms(2))
  with r1 r2 show ?thesis by simp
next
  case r1: (Throw e w1)
  with assms(1) obtain e' w2 where r2: "r2 = Throw e' w2"
    by (cases r2) (auto simp: agree_def)
  with r1 assms(1) show ?thesis by (simp add: agree_def)
qed

lemma agree_attempt:
  assumes "now w1 = now w2" and "page w1 = page w2"
  shows "agree (attempt env args tradeUrl w1) (attempt env args tradeUrl w2)"
  unfolding attempt_def
  using assms
  by (intro agree_await agree_pageCall) (auto intro: agree_delay agree_Return)

lemma raised_attempt_emit:
  "raised (attempt env args tradeUrl (emit e w)) = raised (attempt env args tradeUrl w)"
proof -
  have "agree (attempt env args tradeUrl (emit e w)) (attempt env args tradeUrl w)"
    by (rule agree_attempt) (simp_all add: emit_def)
  then show ?thesis by (simp add: agree_def)
qed

lemma selectTrades_oldest_nonempty:
  assumes "target args = OldestTrade" and "tradeUrls \<noteq> []"
  shows "selectTrades args tradeUrls = [last tradeUrls]"
proof -
  from assms(2) have "0 < length tradeUrls" by simp
  then have "nat (int (length tradeUrls) - 1) = length tradeUrls - 1" by simp
  with assms show ?thesis
    by (simp add: selectTrades_def js_index_def last_conv_nth)
qed

lemma selectTrades_oldest_length:
  assumes "target args = OldestTrade"
  shows "length (selectTrades args tradeUrls) = 1"
  using assms by (simp add: selectTrades_def)

lemma selectTrades_all:
  assumes "target args = AllTrades"
  shows "selectTrades args tradeUrls = tradeUrls"
  using assms by (simp add: selectTrades_def)

section \<open>Discovery: the oldest trade and the login\<close>

text \<open>
  C4. In the mode 'oldest' the listing is reduced to \<^verbatim>\<open>[tradeUrls[tradeUrls.length - 1]]\<close>.
  On a listing with entries this is the one-element sequence of the last entry
  (\<open>selectTrades_oldest_nonempty\<close>). On the empty listing the index is \<open>-1\<close>, the read gives
  \<^verbatim>\<open>undefined\<close>, and the discovered sequence is the one-element sequence \<^verbatim>\<open>[undefined]\<close>,
  not the empty sequence: the page that shows no anchors makes \<^verbatim>\<open>scrapeTrades\<close> return
  \<open>[Undefined]\<close>.
\<close>

theorem scrapeTrades_oldest_empty_listing:
  "returned (scrapeTrades (calmEnv []) bumpOldest15 world0) = Some [Undefined]"
  by (simp add: scrapeTrades_def calmEnv_def bumpOldest15_def world0_def pageCall_def
      emit_def selectTrades_def js_index_def Let_def)




section \<open>The action on one item\<close>







lemma attempt_first:
  fixes env :: "'p env"
  shows "\<exists>mid. trace (world_of (attempt env args tradeUrl w)) = trace w @ Call (Goto tradeUrl) # mid
           \<and> list_all attempt_event mid"
proof -
  let ?k = "\<lambda>(_::unit) w.
     await (pageCall env (Click EditLink) w) (\<lambda>_ w.
     await (pageCall env WaitForNavigation w) (\<lambda>_ w.
     await (if target args = AllTrades then delay env (1000 * 10) w else Return () w) (\<lambda>_ w.
     await (pageCall env (Click SaveButton) w) (\<lambda>_ w.
     pageCall env WaitForNavigation w))))"
  have unfold: "attempt env args tradeUrl w = await (pageCall env (Goto tradeUrl) w) ?k"
    by (simp add: attempt_def)
  have first: "trace (world_of (pageCall env (Goto tradeUrl) w)) = trace w @ [Call (Goto tradeUrl)]"
    by (simp add: pageCall_def emit_def Let_def split: prod.splits option.splits)
  have rest: "advances attempt_event w1 (world_of (?k x w1))" for x :: unit and w1 :: "'p world"
    by ((intro advances_await advances_pageCall | simp add: advances_refl advances_delay)+)
  show ?thesis
  proof (cases "pageCall env (Goto tradeUrl) w")
    case (Return x w1)
    have "advances attempt_event w1 (world_of (?k x w1))" by (rule rest)
    then obtain es where "trace (world_of (?k x w1)) = trace w1 @ es" "list_all attempt_event es"
      by (auto simp: advances_def)
    with first Return unfold show ?thesis by simp
  next
    case (Throw e w1)
    with first unfold show ?thesis by simp
  qed
qed

lemma outcome_not_attempt: "attempt_event e \<Longrightarrow> \<not> is_outcome e"
  by (cases e rule: attempt_event.cases) simp_all

lemma outcome_for_is_outcome: "outcome_for args n index e \<Longrightarrow> is_outcome e"
  by (cases "(args, n, index, e)" rule: outcome_for.cases) simp_all

text \<open>One turn of the loop: it returns, and what it adds to the trace is the item's segment.\<close>

lemma bumpTrade_segment:
  fixes env :: "'p env"
  shows "\<exists>w' seg. bumpTrade env args n index tradeUrl w = Return () w'
           \<and> trace w' = trace w @ seg \<and> item_segment args n index tradeUrl seg
           \<and> (is_failed (last seg) \<longleftrightarrow> raised (attempt env args tradeUrl w))"
proof -
  let ?start = "SpinStart (if target args = OldestTrade then BumpingOldest
                           else BumpingTrade (index + 1) n)"
  let ?w0 = "emit ?start w"
  obtain mid where mid: "trace (world_of (attempt env args tradeUrl ?w0)) =
      trace ?w0 @ Call (Goto tradeUrl) # mid" "list_all attempt_event mid"
    using attempt_first [of env args tradeUrl ?w0] by blast
  have r: "raised (attempt env args tradeUrl ?w0) = raised (attempt env args tradeUrl w)"
    by (rule raised_attempt_emit)
  show ?thesis
  proof (cases "attempt env args tradeUrl ?w0")
    case (Return x w1)
    let ?out = "SpinSucceed (if target args = OldestTrade
                             then BumpedOldest ((now w1 - now w) div 1000)
                             else BumpedTrade (index + 1) n ((now w1 - now w) div 1000))"
    let ?seg = "?start # Call (Goto tradeUrl) # mid @ [?out]"
    have "bumpTrade env args n index tradeUrl w = Return () (emit ?out w1)"
      using Return by (auto simp: bumpTrade_def Let_def)
    moreover have "trace (emit ?out w1) = trace w @ ?seg"
      using Return mid(1) by (simp add: emit_def)
    moreover have "item_segment args n index tradeUrl ?seg"
      using mid(2) by (simp add: item_segment_def)
    moreover have "is_failed (last ?seg) \<longleftrightarrow> raised (attempt env args tradeUrl w)"
      using Return r by simp
    ultimately show ?thesis by blast
  next
    case (Throw e w1)
    let ?out = "SpinFail (if target args = OldestTrade
                          then FailedOldest ((now w1 - now w) div 1000)
                          else FailedTrade (index + 1) n ((now w1 - now w) div 1000))"
    let ?seg = "?start # Call (Goto tradeUrl) # mid @ [?out]"
    have "bumpTrade env args n index tradeUrl w = Return () (emit ?out w1)"
      using Throw by (auto simp: bumpTrade_def Let_def)
    moreover have "trace (emit ?out w1) = trace w @ ?seg"
      using Throw mid(1) by (simp add: emit_def)
    moreover have "item_segment args n index tradeUrl ?seg"
      using mid(2) by (simp add: item_segment_def)
    moreover have "is_failed (last ?seg) \<longleftrightarrow> raised (attempt env args tradeUrl w)"
      using Throw r by simp
    ultimately show ?thesis by blast
  qed
qed

lemma item_segment_one_outcome:
  assumes "item_segment args n index tradeUrl seg"
  shows "length (filter is_outcome seg) = 1"
proof -
  from assms have len: "3 \<le> length seg" by (simp add: item_segment_def)
  then obtain a b rest where seg: "seg = a # b # rest" "rest \<noteq> []"
    by (cases seg; cases "tl seg"; cases "tl (tl seg)") auto
  then have split: "seg = a # b # butlast rest @ [last rest]" by simp
  from assms seg have a: "\<not> is_outcome a" and b: "\<not> is_outcome b"
    by (auto simp: item_segment_def split: if_splits)
  from assms seg have mid: "list_all attempt_event (butlast rest)"
    by (simp add: item_segment_def butlast_append)
  from assms seg have out: "is_outcome (last rest)"
    by (auto simp: item_segment_def dest: outcome_for_is_outcome)
  from mid have "filter is_outcome (butlast rest) = []"
    by (auto simp: list_all_iff filter_empty_conv dest: outcome_not_attempt)
  with a b out have "filter is_outcome (a # b # butlast rest @ [last rest]) = [last rest]"
    by simp
  with split show ?thesis by simp
qed

lemma bumpLoop_segments:
  "\<exists>w' segs. bumpLoop env args n index tradeUrls w = Return () w'
      \<and> trace w' = trace w @ concat segs \<and> length segs = length tradeUrls
      \<and> (\<forall>k<length tradeUrls. item_segment args n (index + k) (tradeUrls ! k) (segs ! k))"
proof (induction tradeUrls arbitrary: index w)
  case Nil
  show ?case by simp
next
  case (Cons tradeUrl rest)
  obtain w1 seg where one: "bumpTrade env args n index tradeUrl w = Return () w1"
    "trace w1 = trace w @ seg" "item_segment args n index tradeUrl seg"
    using bumpTrade_segment [of env args n index tradeUrl w] by blast
  obtain w' segs where more: "bumpLoop env args n (index + 1) rest w1 = Return () w'"
    "trace w' = trace w1 @ concat segs" "length segs = length rest"
    "\<forall>k<length rest. item_segment args n (index + 1 + k) (rest ! k) (segs ! k)"
    using Cons.IH [of "index + 1" w1] by blast
  have "bumpLoop env args n index (tradeUrl # rest) w = Return () w'"
    using one(1) more(1) by simp
  moreover have "trace w' = trace w @ concat (seg # segs)"
    using one(2) more(2) by simp
  moreover have "length (seg # segs) = length (tradeUrl # rest)"
    using more(3) by simp
  moreover have "\<forall>k<length (tradeUrl # rest).
      item_segment args n (index + k) ((tradeUrl # rest) ! k) ((seg # segs) ! k)"
  proof (intro allI impI)
    fix k assume k: "k < length (tradeUrl # rest)"
    show "item_segment args n (index + k) ((tradeUrl # rest) ! k) ((seg # segs) ! k)"
    proof (cases k)
      case 0
      with one(3) show ?thesis by simp
    next
      case (Suc j)
      with k have "j < length rest" by simp
      with more(4) have "item_segment args n (index + 1 + j) (rest ! j) (segs ! j)" by blast
      with Suc show ?thesis by simp
    qed
  qed
  ultimately show ?case by blast
qed

lemma count_outcomes_concat:
  assumes "\<forall>k<length segs. length (filter is_outcome (segs ! k)) = 1"
  shows "length (filter is_outcome (concat segs)) = length segs"
  using assms
proof (induction segs)
  case Nil
  show ?case by simp
next
  case (Cons seg segs)
  from Cons.prems have "length (filter is_outcome seg) = 1" by force
  moreover from Cons.prems have "\<forall>k<length segs. length (filter is_outcome (segs ! k)) = 1"
    by force
  ultimately show ?case using Cons.IH by simp
qed








lemma bumpTrades_returns: "\<not> raised (bumpTrades env args tradeUrls w)"
  using bumpLoop_segments [of env args "length tradeUrls" 0 tradeUrls w]
  by (auto simp: bumpTrades_def)



text \<open>
  C5. \<^verbatim>\<open>bumpTrades\<close> returns for every list of items, whatever fails on the way, and what
  it adds to the trace is one segment per item, in the order of the list: segment \<open>k\<close>
  starts the spinner for item \<open>k\<close>, navigates to item \<open>k\<close> and ends with the one outcome of
  item \<open>k\<close>. The number of outcomes reported is the number of items.
\<close>

theorem bumpTrades_one_outcome_per_item:
  "\<exists>w' segs. bumpTrades env args tradeUrls w = Return () w'
      \<and> trace w' = trace w @ concat segs
      \<and> length segs = length tradeUrls
      \<and> (\<forall>k<length tradeUrls.
            item_segment args (length tradeUrls) k (tradeUrls ! k) (segs ! k))
      \<and> length (filter is_outcome (concat segs)) = length tradeUrls"
proof -
  obtain w' segs where s: "bumpLoop env args (length tradeUrls) 0 tradeUrls w = Return () w'"
    "trace w' = trace w @ concat segs" "length segs = length tradeUrls"
    "\<forall>k<length tradeUrls. item_segment args (length tradeUrls) (0 + k) (tradeUrls ! k) (segs ! k)"
    using bumpLoop_segments [of env args "length tradeUrls" 0 tradeUrls w] by blast
  have "\<forall>k<length segs. length (filter is_outcome (segs ! k)) = 1"
  proof (intro allI impI)
    fix k assume "k < length segs"
    with s(3,4) have "item_segment args (length tradeUrls) k (tradeUrls ! k) (segs ! k)"
      by simp
    then show "length (filter is_outcome (segs ! k)) = 1"
      by (rule item_segment_one_outcome)
  qed
  then have "length (filter is_outcome (concat segs)) = length segs"
    by (rule count_outcomes_concat)
  with s show ?thesis by (auto simp: bumpTrades_def)
qed

theorem bumpTrades_one_outcome_per_item_witness:
  "filter is_outcome
     (trace (world_of (bumpTrades (failingEnv (Goto (Str ''t2'')) ''timeout'' []) bumpAll15
                         [Str ''t1'', Str ''t2'', Str ''t3''] world0)))
     = [SpinSucceed (BumpedTrade 1 3 10), SpinFail (FailedTrade 2 3 0),
        SpinSucceed (BumpedTrade 3 3 10)]
   \<and> (\<exists>w' segs. bumpTrades (failingEnv (Goto (Str ''t2'')) ''timeout'' []) bumpAll15
                    [Str ''t1'', Str ''t2'', Str ''t3''] world0 = Return () w'
      \<and> trace w' = trace world0 @ concat segs
      \<and> length segs = length [Str ''t1'', Str ''t2'', Str ''t3'']
      \<and> (\<forall>k<length [Str ''t1'', Str ''t2'', Str ''t3''].
            item_segment bumpAll15 (length [Str ''t1'', Str ''t2'', Str ''t3'']) k
              ([Str ''t1'', Str ''t2'', Str ''t3''] ! k) (segs ! k))
      \<and> length (filter is_outcome (concat segs)) = length [Str ''t1'', Str ''t2'', Str ''t3''])"
proof
  show "filter is_outcome
     (trace (world_of (bumpTrades (failingEnv (Goto (Str ''t2'')) ''timeout'' []) bumpAll15
                         [Str ''t1'', Str ''t2'', Str ''t3''] world0)))
     = [SpinSucceed (BumpedTrade 1 3 10), SpinFail (FailedTrade 2 3 0),
        SpinSucceed (BumpedTrade 3 3 10)]"
    by (simp add: bumpTrades_def bumpTrade_def attempt_def failingEnv_def bumpAll15_def
        world0_def pageCall_def delay_def emit_def Let_def)
  show "\<exists>w' segs. bumpTrades (failingEnv (Goto (Str ''t2'')) ''timeout'' []) bumpAll15
                    [Str ''t1'', Str ''t2'', Str ''t3''] world0 = Return () w'
      \<and> trace w' = trace world0 @ concat segs
      \<and> length segs = length [Str ''t1'', Str ''t2'', Str ''t3'']
      \<and> (\<forall>k<length [Str ''t1'', Str ''t2'', Str ''t3''].
            item_segment bumpAll15 (length [Str ''t1'', Str ''t2'', Str ''t3'']) k
              ([Str ''t1'', Str ''t2'', Str ''t3''] ! k) (segs ! k))
      \<and> length (filter is_outcome (concat segs)) = length [Str ''t1'', Str ''t2'', Str ''t3'']"
    by (rule bumpTrades_one_outcome_per_item)
qed

text \<open>The \<^verbatim>\<open>try\<close> block is the edit step, then the cooldown under 'all', then the save step.\<close>

lemma await_assoc: "await (await r k1) k2 = await r (\<lambda>x w. await (k1 x w) k2)"
  by (cases r) simp_all










section \<open>The cycle and the schedule\<close>


lemma bumpTrade_shape:
  "\<exists>out. is_outcome out
      \<and> bumpTrade env args n index tradeUrl w =
          Return () (emit out (world_of (attempt env args tradeUrl
            (emit (SpinStart (if target args = OldestTrade then BumpingOldest
                              else BumpingTrade (index + 1) n)) w))))"
proof -
  let ?start = "SpinStart (if target args = OldestTrade then BumpingOldest
                           else BumpingTrade (index + 1) n)"
  show ?thesis
  proof (cases "attempt env args tradeUrl (emit ?start w)")
    case (Return x w1)
    let ?out = "SpinSucceed (if target args = OldestTrade
                             then BumpedOldest ((now w1 - now w) div 1000)
                             else BumpedTrade (index + 1) n ((now w1 - now w) div 1000))"
    have "bumpTrade env args n index tradeUrl w = Return () (emit ?out w1)"
      using Return by (auto simp: bumpTrade_def Let_def)
    moreover have "is_outcome ?out" by simp
    ultimately show ?thesis unfolding Return world_of.simps by blast
  next
    case (Throw e w1)
    let ?out = "SpinFail (if target args = OldestTrade
                          then FailedOldest ((now w1 - now w) div 1000)
                          else FailedTrade (index + 1) n ((now w1 - now w) div 1000))"
    have "bumpTrade env args n index tradeUrl w = Return () (emit ?out w1)"
      using Throw by (auto simp: bumpTrade_def Let_def)
    moreover have "is_outcome ?out" by simp
    ultimately show ?thesis unfolding Throw world_of.simps by blast
  qed
qed


lemma timer_bumpTrade: "timer (world_of (bumpTrade env args n index tradeUrl w)) = timer w"
proof -
  obtain out where "bumpTrade env args n index tradeUrl w =
      Return () (emit out (world_of (attempt env args tradeUrl
        (emit (SpinStart (if target args = OldestTrade then BumpingOldest
                          else BumpingTrade (index + 1) n)) w))))"
    using bumpTrade_shape [of env args n index tradeUrl w] by blast
  then show ?thesis by (simp add: timer_attempt)
qed


lemma timer_bumpLoop: "timer (world_of (bumpLoop env args n index tradeUrls w)) = timer w"
proof (induction tradeUrls arbitrary: index w)
  case Nil
  show ?case by simp
next
  case (Cons tradeUrl rest)
  show ?case
    unfolding bumpLoop.simps
    by (intro timer_await timer_bumpTrade Cons.IH)
qed


lemma timer_bumpTrades: "timer (world_of (bumpTrades env args tradeUrls w)) = timer w"
  unfolding bumpTrades_def by (rule timer_bumpLoop)


lemma scheduleBumpTrades_result:
  "scheduleBumpTrades args w =
     Return () ((emit (Info (RunAgainAt (now w + 1000 * 60 * interval args))) w)
                  \<lparr>timer := Some (1000 * 60 * interval args)\<rparr>)"
  by (simp add: scheduleBumpTrades_def Let_def)





lemma raised_cycle: "raised (cycle env args w) = raised (scrapeTrades env args w)"
proof (cases "scrapeTrades env args w")
  case (Return tradeUrls w1)
  obtain w2 where "bumpTrades env args tradeUrls w1 = Return () w2"
    using bumpTrades_returns [of env args tradeUrls w1]
    by (cases "bumpTrades env args tradeUrls w1") auto
  with Return show ?thesis by (simp add: cycle_def scheduleBumpTrades_result)
next
  case (Throw e w1)
  then show ?thesis by (simp add: cycle_def)
qed

lemma timer_cycle:
  "timer (world_of (cycle env args w)) =
     (if raised (scrapeTrades env args w) then timer w else Some (1000 * 60 * interval args))"
proof (cases "scrapeTrades env args w")
  case (Return tradeUrls w1)
  obtain w2 where "bumpTrades env args tradeUrls w1 = Return () w2"
    using bumpTrades_returns [of env args tradeUrls w1]
    by (cases "bumpTrades env args tradeUrls w1") auto
  with Return show ?thesis by (simp add: cycle_def scheduleBumpTrades_result)
next
  case (Throw e w1)
  with timer_scrapeTrades [of env args w] show ?thesis by (simp add: cycle_def)
qed


lemma action_via_firstDiscovery:
  "action env args w =
     await (firstDiscovery env args w) (\<lambda>tradeUrls w.
     await (bumpTrades env args tradeUrls w) (\<lambda>_ w.
     scheduleBumpTrades args w))"
  by (simp add: action_def firstDiscovery_def await_assoc)

lemma timer_firstDiscovery: "timer (world_of (firstDiscovery env args w)) = timer w"
  unfolding firstDiscovery_def
  by (intro timer_await timer_boot timer_login timer_scrapeTrades)

lemma raised_action: "raised (action env args w) = raised (firstDiscovery env args w)"
proof (cases "firstDiscovery env args w")
  case (Return tradeUrls w1)
  obtain w2 where "bumpTrades env args tradeUrls w1 = Return () w2"
    using bumpTrades_returns [of env args tradeUrls w1]
    by (cases "bumpTrades env args tradeUrls w1") auto
  with Return show ?thesis by (simp add: action_via_firstDiscovery scheduleBumpTrades_result)
next
  case (Throw e w1)
  then show ?thesis by (simp add: action_via_firstDiscovery)
qed

lemma timer_action:
  "timer (world_of (action env args w)) =
     (if raised (firstDiscovery env args w) then timer w else Some (1000 * 60 * interval args))"
proof (cases "firstDiscovery env args w")
  case (Return tradeUrls w1)
  obtain w2 where "bumpTrades env args tradeUrls w1 = Return () w2"
    using bumpTrades_returns [of env args tradeUrls w1]
    by (cases "bumpTrades env args tradeUrls w1") auto
  with Return show ?thesis by (simp add: action_via_firstDiscovery scheduleBumpTrades_result)
next
  case (Throw e w1)
  with timer_firstDiscovery [of env args w] show ?thesis
    by (simp add: action_via_firstDiscovery)
qed










lemma run_stays_rejected:
  assumes "raised (run env args k w)"
  shows "run env args (Suc k) w = run env args k w"
  using assms by (cases "run env args k w") simp_all

text \<open>
  C1, as the spec states it, fails. When the login does not complete, the chain of the
  command is rejected, no timer is set and a further turn of the event loop changes
  nothing. When the listing of the second cycle cannot be read, the first cycle has
  scheduled the second, the second is rejected and leaves no timer, and again nothing
  further runs.
\<close>

theorem discovery_failure_stops_rescheduling:
  "raised (run (failingEnv (Click LoginSubmit) ''timeout'' [''t1'']) bumpAll15 0 world0)
   \<and> timer (world_of (run (failingEnv (Click LoginSubmit) ''timeout'' [''t1'']) bumpAll15 0 world0))
       = None
   \<and> run (failingEnv (Click LoginSubmit) ''timeout'' [''t1'']) bumpAll15 (Suc 0) world0
       = run (failingEnv (Click LoginSubmit) ''timeout'' [''t1'']) bumpAll15 0 world0
   \<and> \<not> raised (run secondListingFailsEnv bumpOldest15 0 counting0)
   \<and> timer (world_of (run secondListingFailsEnv bumpOldest15 0 counting0)) = Some 900000
   \<and> raised (run secondListingFailsEnv bumpOldest15 (Suc 0) counting0)
   \<and> timer (world_of (run secondListingFailsEnv bumpOldest15 (Suc 0) counting0)) = None
   \<and> run secondListingFailsEnv bumpOldest15 (Suc (Suc 0)) counting0
       = run secondListingFailsEnv bumpOldest15 (Suc 0) counting0"
  by (simp add: action_def fire_def cycle_def boot_def login_def scrapeTrades_def
      bumpTrades_def bumpTrade_def attempt_def scheduleBumpTrades_def selectTrades_def
      js_index_def failingEnv_def secondListingFailsEnv_def bumpAll15_def bumpOldest15_def
      world0_def counting0_def pageCall_def delay_def emit_def Let_def)

text \<open>
  C1, amended. A cycle is rejected exactly when its discovery is (\<^verbatim>\<open>scrapeTrades\<close> for a
  cycle run from the timer; \<^verbatim>\<open>boot\<close>, \<^verbatim>\<open>login\<close>, \<^verbatim>\<open>scrapeTrades\<close> for the first), never
  because of an item. After a cycle whose discovery returned, the timer for the next cycle
  is set to the configured interval; after a rejected one no timer has been set, and no
  further turn of the event loop changes anything.
\<close>

theorem rescheduling_needs_discovery:
  "raised (cycle env args w) = raised (scrapeTrades env args w)
   \<and> timer (world_of (cycle env args w)) =
       (if raised (scrapeTrades env args w) then timer w else Some (1000 * 60 * interval args))
   \<and> raised (action env args w) = raised (firstDiscovery env args w)
   \<and> timer (world_of (action env args w)) =
       (if raised (firstDiscovery env args w) then timer w else Some (1000 * 60 * interval args))
   \<and> (raised (run env args k w) \<longrightarrow> run env args (Suc k) w = run env args k w)"
  using raised_cycle [of env args w] timer_cycle [of env args w]
    raised_action [of env args w] timer_action [of env args w]
    run_stays_rejected [of env args k w]
  by blast

theorem rescheduling_needs_discovery_witness:
  "\<not> raised (scrapeTrades (failingEnv (Goto (Str ''t1'')) ''timeout'' [''t1'']) bumpAll15 world0)
   \<and> SpinFail (FailedTrade 1 1 0)
       \<in> set (trace (world_of (cycle (failingEnv (Goto (Str ''t1'')) ''timeout'' [''t1''])
                                  bumpAll15 world0)))
   \<and> timer (world_of (cycle (failingEnv (Goto (Str ''t1'')) ''timeout'' [''t1'']) bumpAll15 world0))
       = Some 900000
   \<and> raised (run (failingEnv Evaluate ''timeout'' [''t1'']) bumpAll15 0 world0)
   \<and> run (failingEnv Evaluate ''timeout'' [''t1'']) bumpAll15 (Suc 0) world0
       = run (failingEnv Evaluate ''timeout'' [''t1'']) bumpAll15 0 world0"
proof -
  let ?E = "failingEnv (Goto (Str ''t1'')) ''timeout'' [''t1'']"
  let ?F = "failingEnv Evaluate ''timeout'' [''t1'']"
  have a: "\<not> raised (scrapeTrades ?E bumpAll15 world0)"
    by (simp add: scrapeTrades_def failingEnv_def trading_url_def bumpAll15_def world0_def
        pageCall_def emit_def Let_def)
  have b: "SpinFail (FailedTrade 1 1 0) \<in> set (trace (world_of (cycle ?E bumpAll15 world0)))"
    by (simp add: cycle_def scrapeTrades_def bumpTrades_def bumpTrade_def attempt_def
        scheduleBumpTrades_def selectTrades_def failingEnv_def trading_url_def bumpAll15_def
        world0_def pageCall_def delay_def emit_def Let_def)
  have c: "raised (run ?F bumpAll15 0 world0)"
    by (simp add: action_def boot_def login_def scrapeTrades_def failingEnv_def bumpAll15_def
        world0_def pageCall_def emit_def Let_def)
  have i: "interval bumpAll15 = 15" by (simp add: bumpAll15_def)
  from rescheduling_needs_discovery [of ?E bumpAll15 world0 0] a i
  have "timer (world_of (cycle ?E bumpAll15 world0)) = Some 900000" by simp
  moreover from rescheduling_needs_discovery [of ?F bumpAll15 world0 0] c
  have "run ?F bumpAll15 (Suc 0) world0 = run ?F bumpAll15 0 world0" by blast
  ultimately show ?thesis using a b c by blast
qed















end
